theory Spec2Isabelle
  imports Complex_Main
begin

section \<open>StorageService: the in-memory saved-articles list\<close>

text \<open>
  \<^verbatim>\<open>interface SavedArticle { id: number; pmcid: string; title: string; snippet: string;
                          link: string; journal?: string; date?: string }\<close>

  The id is the backend's \<^verbatim>\<open>article_id\<close>, read from JSON, so it is never NaN and
  \<^verbatim>\<open>===\<close> on two ids is plain equality; it is modelled as an integer. The field is
  called \<open>article_id\<close> here because \<open>id\<close> is the identity function of HOL.
\<close>

record SavedArticle =
  article_id :: int
  pmcid :: string
  title :: string
  snippet :: string
  link :: string
  journal :: "string option"
  date :: "string option"

datatype sender = User | Bot

record ChatMessage =
  text_of :: string
  sender_of :: sender
  timestamp :: int

record StorageService =
  savedArticles :: "SavedArticle list"
  chatHistory :: "ChatMessage list"

text \<open>The field initialisers of the class: both lists start empty.\<close>

definition new_StorageService :: StorageService where
  "new_StorageService = \<lparr>savedArticles = [], chatHistory = []\<rparr>"

text \<open>
  \<^verbatim>\<open>if (this.savedArticles.find((a) => a.id === article.id)) return false;
this.savedArticles.push(article); return true;\<close>

  \<open>find\<close> returns the first matching element or nothing; an element is an object and so
  always truthy.
\<close>

definition saveArticle :: "SavedArticle \<Rightarrow> StorageService \<Rightarrow> bool \<times> StorageService" where
  "saveArticle article s =
     (case find (\<lambda>a. article_id a = article_id article) (savedArticles s) of
        Some _ \<Rightarrow> (False, s)
      | None \<Rightarrow> (True, s\<lparr>savedArticles := savedArticles s @ [article]\<rparr>))"

definition getSavedArticles :: "StorageService \<Rightarrow> SavedArticle list" where
  "getSavedArticles s = savedArticles s"

text \<open>\<^verbatim>\<open>splice(index, 1)\<close>: the list without its element at position \<open>i\<close>.\<close>

definition splice1 :: "nat \<Rightarrow> 'a list \<Rightarrow> 'a list" where
  "splice1 i xs = take i xs @ drop (Suc i) xs"

definition removeArticle :: "int \<Rightarrow> StorageService \<Rightarrow> bool \<times> StorageService" where
  "removeArticle index s =
     (if 0 \<le> index \<and> index < int (length (savedArticles s))
      then (True, s\<lparr>savedArticles := splice1 (nat index) (savedArticles s)\<rparr>)
      else (False, s))"

text \<open>\<^verbatim>\<open>findIndex\<close>: the position of the first match, \<open>None\<close> for the source's \<open>-1\<close>.\<close>

fun findIndex :: "('a \<Rightarrow> bool) \<Rightarrow> 'a list \<Rightarrow> nat option" where
  "findIndex p [] = None"
| "findIndex p (x # xs) =
     (if p x then Some 0 else map_option Suc (findIndex p xs))"

definition removeArticleById :: "int \<Rightarrow> StorageService \<Rightarrow> bool \<times> StorageService" where
  "removeArticleById i s =
     (case findIndex (\<lambda>a. article_id a = i) (savedArticles s) of
        Some index \<Rightarrow> (True, s\<lparr>savedArticles := splice1 index (savedArticles s)\<rparr>)
      | None \<Rightarrow> (False, s))"

text \<open>\<^verbatim>\<open>return this.savedArticles.some((a) => a.id === id);\<close>\<close>

definition isArticleSaved :: "int \<Rightarrow> StorageService \<Rightarrow> bool" where
  "isArticleSaved i s = list_ex (\<lambda>a. article_id a = i) (savedArticles s)"

definition getSavedArticlesCount :: "StorageService \<Rightarrow> nat" where
  "getSavedArticlesCount s = length (savedArticles s)"

definition saveChatMessage :: "ChatMessage \<Rightarrow> StorageService \<Rightarrow> StorageService" where
  "saveChatMessage m s = s\<lparr>chatHistory := chatHistory s @ [m]\<rparr>"

definition clearChatHistory :: "StorageService \<Rightarrow> StorageService" where
  "clearChatHistory s = s\<lparr>chatHistory := []\<rparr>"

definition clearAll :: "StorageService \<Rightarrow> StorageService" where
  "clearAll s = s\<lparr>savedArticles := [], chatHistory := []\<rparr>"

text \<open>
  Every method of the class that writes a field, as one call; a history of the service is
  a list of calls run from the freshly constructed object.
\<close>

datatype storage_call =
    SaveArticle SavedArticle
  | RemoveArticle int
  | RemoveArticleById int
  | SaveChatMessage ChatMessage
  | ClearChatHistory
  | ClearAll

fun storage_step :: "StorageService \<Rightarrow> storage_call \<Rightarrow> StorageService" where
  "storage_step s (SaveArticle a) = snd (saveArticle a s)"
| "storage_step s (RemoveArticle i) = snd (removeArticle i s)"
| "storage_step s (RemoveArticleById i) = snd (removeArticleById i s)"
| "storage_step s (SaveChatMessage m) = saveChatMessage m s"
| "storage_step s ClearChatHistory = clearChatHistory s"
| "storage_step s ClearAll = clearAll s"

definition storage_run :: "storage_call list \<Rightarrow> StorageService" where
  "storage_run calls = foldl storage_step new_StorageService calls"

definition unique_ids :: "StorageService \<Rightarrow> bool" where
  "unique_ids s = distinct (map article_id (savedArticles s))"

subsection \<open>Saved articles are unique by id\<close>

lemma find_None_ids: "find (\<lambda>a. article_id a = i) xs = None \<longleftrightarrow> i \<notin> article_id ` set xs"
  by (induction xs) auto

lemma isArticleSaved_find:
  "isArticleSaved i s \<longleftrightarrow> find (\<lambda>a. article_id a = i) (savedArticles s) \<noteq> None"
  by (auto simp: isArticleSaved_def find_None_ids list_ex_iff)

lemma distinct_splice1: "distinct (map f xs) \<Longrightarrow> distinct (map f (splice1 i xs))"
proof -
  assume d: "distinct (map f xs)"
  have "map f (splice1 i xs) = take i (map f xs) @ drop (Suc i) (map f xs)"
    by (simp add: splice1_def take_map drop_map)
  moreover have "distinct (take i (map f xs) @ drop (Suc i) (map f xs))"
    using d set_take_disj_set_drop_if_distinct [of "map f xs" i "Suc i"]
    by (simp add: distinct_take distinct_drop)
  ultimately show ?thesis by simp
qed

lemma unique_ids_step: "unique_ids s \<Longrightarrow> unique_ids (storage_step s c)"
proof (cases c)
  case (SaveArticle a)
  assume "unique_ids s"
  then show ?thesis
    using SaveArticle
    by (auto simp: unique_ids_def saveArticle_def find_None_ids split: option.splits)
next
  case (RemoveArticle i)
  assume "unique_ids s"
  then show ?thesis
    using RemoveArticle by (simp add: unique_ids_def removeArticle_def distinct_splice1)
next
  case (RemoveArticleById i)
  assume "unique_ids s"
  then show ?thesis
    using RemoveArticleById
    by (simp add: unique_ids_def removeArticleById_def distinct_splice1 split: option.splits)
qed (simp_all add: unique_ids_def saveChatMessage_def clearChatHistory_def clearAll_def)

lemma unique_ids_foldl: "unique_ids s \<Longrightarrow> unique_ids (foldl storage_step s calls)"
  by (induction calls arbitrary: s) (simp_all add: unique_ids_step)

text \<open>
  C10. \<open>saveArticle a\<close> returns false and leaves the service unchanged when an article
  with the id of \<open>a\<close> is already saved, and otherwise appends \<open>a\<close> at the end and returns
  true; so after any history of calls on a new service, no two saved articles share an id.
\<close>

theorem saveArticle_unique:
  "(isArticleSaved (article_id a) s \<longrightarrow> saveArticle a s = (False, s)) \<and>
   (\<not> isArticleSaved (article_id a) s \<longrightarrow>
      saveArticle a s = (True, s\<lparr>savedArticles := savedArticles s @ [a]\<rparr>)) \<and>
   unique_ids (storage_run calls)"
proof (intro conjI impI)
  assume "isArticleSaved (article_id a) s"
  then show "saveArticle a s = (False, s)"
    by (auto simp: isArticleSaved_find saveArticle_def)
next
  assume "\<not> isArticleSaved (article_id a) s"
  then show "saveArticle a s = (True, s\<lparr>savedArticles := savedArticles s @ [a]\<rparr>)"
    by (simp add: isArticleSaved_find saveArticle_def)
next
  have "unique_ids new_StorageService"
    by (simp add: unique_ids_def new_StorageService_def)
  then show "unique_ids (storage_run calls)"
    unfolding storage_run_def by (rule unique_ids_foldl)
qed

definition article7 :: SavedArticle where
  "article7 = \<lparr>article_id = 7, pmcid = ''PMC7'', title = ''Bone loss'', snippet = ''...'',
     link = ''https://www.ncbi.nlm.nih.gov/pmc/articles/PMC7/'', journal = None, date = None\<rparr>"

definition article9 :: SavedArticle where
  "article9 = \<lparr>article_id = 9, pmcid = ''PMC9'', title = ''Plant growth'', snippet = ''...'',
     link = ''https://www.ncbi.nlm.nih.gov/pmc/articles/PMC9/'', journal = Some ''npj'',
     date = None\<rparr>"

theorem saveArticle_unique_witness:
  "isArticleSaved 7 (storage_run [SaveArticle article7]) \<and>
   saveArticle article7 (storage_run [SaveArticle article7])
     = (False, storage_run [SaveArticle article7]) \<and>
   \<not> isArticleSaved 9 (storage_run [SaveArticle article7]) \<and>
   savedArticles (snd (saveArticle article9 (storage_run [SaveArticle article7])))
     = [article7, article9] \<and>
   unique_ids (storage_run [SaveArticle article7, SaveArticle article7, SaveArticle article9])"
proof -
  let ?s = "storage_run [SaveArticle article7]"
  have s: "savedArticles ?s = [article7]"
    by (simp add: storage_run_def new_StorageService_def saveArticle_def)
  have id7: "article_id article7 = 7" and id9: "article_id article9 = 9"
    by (simp_all add: article7_def article9_def)
  have in7: "isArticleSaved 7 ?s"
    by (simp add: isArticleSaved_def s id7)
  have out9: "\<not> isArticleSaved 9 ?s"
    by (simp add: isArticleSaved_def s id7)
  from saveArticle_unique [of article7 ?s] in7 id7
  have a: "saveArticle article7 ?s = (False, ?s)" by simp
  from saveArticle_unique [of article9 ?s] out9 id9
  have b: "savedArticles (snd (saveArticle article9 ?s)) = [article7, article9]"
    by (simp add: s)
  from saveArticle_unique [of article7 ?s "[SaveArticle article7, SaveArticle article7, SaveArticle article9]"]
  have c: "unique_ids (storage_run [SaveArticle article7, SaveArticle article7, SaveArticle article9])"
    by simp
  from in7 a out9 b c show ?thesis by simp
qed

section \<open>Knowledge graph: data\<close>

text \<open>
  \<^verbatim>\<open>interface GraphNode { id: string; label: string; type: string; size?: number;
                       x?: number; y?: number; fx?: number | null; fy?: number | null }
interface GraphEdge { source: string | GraphNode; target: string | GraphNode; weight?: number }
interface KnowledgeGraphData { nodes: GraphNode[]; edges: GraphEdge[] }\<close>

  Numbers are modelled as reals. The fields \<open>vx\<close>, \<open>vy\<close> are the velocity that the spec's
  data model gives every node; \<open>fx\<close>, \<open>fy\<close> are the pin position, \<open>None\<close> for the source's
  \<^verbatim>\<open>null\<close>. An edge of a fetched snapshot names its end points by id.
\<close>

record GraphNode =
  node_id :: string
  label :: string
  node_type :: string
  node_size :: "real option"
  pos_x :: real
  pos_y :: real
  vx :: real
  vy :: real
  fx :: "real option"
  fy :: "real option"

record GraphEdge =
  source :: string
  target :: string
  weight :: "real option"

record KnowledgeGraphData =
  nodes :: "GraphNode list"
  edges :: "GraphEdge list"

section \<open>The simulation handle\<close>

text \<open>
  \<^verbatim>\<open>declare const d3: any;   private simulation: any = null;\<close>

  The object behind \<^verbatim>\<open>this.simulation\<close> is made by \<^verbatim>\<open>d3.forceSimulation\<close>, whose code
  is not part of the sources. Its state is the spec's GraphModel (the node objects, shared
  with the drawn circles and with \<^verbatim>\<open>event.subject\<close>, and the edges resolved to positions
  in the node list) together with the spec's SimulationState. \<open>alphaTarget\<close> is the argument
  of the last \<^verbatim>\<open>simulation.alphaTarget(...)\<close> call of the source: the level that alpha is
  forced up to, \<open>0\<close> when alpha is left to decay.
\<close>

datatype clock_state = Idle | Running | Settling

record Simulation =
  sim_nodes :: "GraphNode list"
  links :: "(nat \<times> nat) list"
  alpha :: real
  alphaMin :: real
  alphaDecay :: real
  alphaTarget :: real
  state :: clock_state

text \<open>
  The four forces of \<^verbatim>\<open>displayGraph\<close> (link, charge, center, collision) are d3's; a
  tick takes their sum as a parameter: \<open>F a ns i\<close> is the accumulated force, per axis, on
  the node at position \<open>i\<close> of \<open>ns\<close> at temperature \<open>a\<close>.
\<close>

type_synonym forces = "real \<Rightarrow> GraphNode list \<Rightarrow> nat \<Rightarrow> real \<times> real"

text \<open>
  Modelled from the spec: the integration of d3's simulation tick is missing from the
  sources. Spec 4.2: "\<^verbatim>\<open>velocity += accumulatedForce; position += velocity\<close> per axis, per
  node, except nodes with a pin position, whose position is forced to \<^verbatim>\<open>(fx, fy)\<close> and
  whose velocity is zeroed." The test is made per axis, which is the same for a node that
  has both or neither of \<open>fx\<close>, \<open>fy\<close>.
\<close>

definition integrate :: "real \<times> real \<Rightarrow> GraphNode \<Rightarrow> GraphNode" where
  "integrate f n =
     n\<lparr>pos_x := (case fx n of None \<Rightarrow> pos_x n + (vx n + fst f) | Some p \<Rightarrow> p),
       vx := (case fx n of None \<Rightarrow> vx n + fst f | Some p \<Rightarrow> 0),
       pos_y := (case fy n of None \<Rightarrow> pos_y n + (vy n + snd f) | Some p \<Rightarrow> p),
       vy := (case fy n of None \<Rightarrow> vy n + snd f | Some p \<Rightarrow> 0)\<rparr>"

text \<open>Modelled from the spec: \<^verbatim>\<open>ForceSolver.step(model, alpha)\<close>, one step for every node.\<close>

definition step :: "forces \<Rightarrow> real \<Rightarrow> GraphNode list \<Rightarrow> GraphNode list" where
  "step F a ns = map (\<lambda>i. integrate (F a ns i) (ns ! i)) [0..<length ns]"


text \<open>
  Modelled from the spec: "each tick: \<^verbatim>\<open>alpha *= (1 - alphaDecay)\<close>; invoke
  \<^verbatim>\<open>ForceSolver.step(model, alpha)\<close>; if \<^verbatim>\<open>alpha < alphaMin\<close>, transition to Idle and stop
  scheduling further ticks".
\<close>

definition tick :: "forces \<Rightarrow> Simulation \<Rightarrow> Simulation" where
  "tick F s =
     (let a = alpha s * (1 - alphaDecay s)
      in s\<lparr>sim_nodes := step F a (sim_nodes s),
           alpha := a,
           state := (if a < alphaMin s then Idle else state s)\<rparr>)"

text \<open>
  Modelled from the spec: whether d3's timer has a tick pending. Spec 4.3: Idle has "no
  scheduled ticks", Running has "one tick scheduled per frame".
\<close>

definition scheduled :: "Simulation \<Rightarrow> bool" where
  "scheduled s = (state s \<noteq> Idle)"

text \<open>
  Modelled from the spec: one display frame of d3's timer, which runs the scheduled tick
  if there is one (spec 5: "a tick either is scheduled for the next frame or is not").
\<close>

definition frame :: "forces \<Rightarrow> Simulation \<Rightarrow> Simulation" where
  "frame F s = (if scheduled s then tick F s else s)"

text \<open>
  Modelled from the spec: "\<^verbatim>\<open>reheat(targetAlpha)\<close>: Idle/Settling -> Running, sets alpha to
  \<^verbatim>\<open>max(currentAlpha, targetAlpha)\<close> without resetting node positions". This is the
  operation in the spec's words; the source has no call of this name, and what its drag
  start calls instead is \<open>set_alphaTarget\<close> and \<open>restart\<close> below.
\<close>

definition reheat :: "real \<Rightarrow> Simulation \<Rightarrow> Simulation" where
  "reheat t s = s\<lparr>alpha := max (alpha s) t, alphaTarget := t, state := Running\<rparr>"

text \<open>
  Modelled from the spec: "\<^verbatim>\<open>cool()\<close>: Running continues but alpha is no longer forced up;
  ordinary decay resumes". The source's call is \<^verbatim>\<open>simulation.alphaTarget(0)\<close>.
\<close>

definition cool :: "Simulation \<Rightarrow> Simulation" where
  "cool s = s\<lparr>alphaTarget := 0\<rparr>"

text \<open>
  Modelled from the spec: alpha "forced up", which is what \<open>reheat\<close> begins and \<open>cool\<close>
  ends.
\<close>

definition forced_up :: "Simulation \<Rightarrow> bool" where
  "forced_up s = (0 < alphaTarget s)"

text \<open>
  Modelled from the spec: d3's setter \<^verbatim>\<open>simulation.alphaTarget(t)\<close>, missing from the
  sources. It writes the level that alpha is forced up to, as \<open>cool\<close> does with \<open>0\<close>, and
  assigns nothing else: alpha itself is left to the ticks.
\<close>

definition set_alphaTarget :: "real \<Rightarrow> Simulation \<Rightarrow> Simulation" where
  "set_alphaTarget t s = s\<lparr>alphaTarget := t\<rparr>"

text \<open>
  Modelled from the spec: d3's \<^verbatim>\<open>simulation.restart()\<close>, missing from the sources. The
  timer runs again, the spec's transition "Idle/Settling -> Running" with one tick
  scheduled per frame; alpha is not assigned.
\<close>

definition restart :: "Simulation \<Rightarrow> Simulation" where
  "restart s = s\<lparr>state := Running\<rparr>"

text \<open>
  Modelled from the spec: "\<^verbatim>\<open>stop()\<close> (teardown): any state -> Idle, cancels the scheduled
  tick". The source's call is \<^verbatim>\<open>simulation.stop()\<close>.
\<close>

definition stop :: "Simulation \<Rightarrow> Simulation" where
  "stop s = s\<lparr>state := Idle\<rparr>"

text \<open>Two nodes and a simulation over them, for the concrete checks below.\<close>

definition node_a :: GraphNode where
  "node_a = \<lparr>node_id = ''a'', label = ''Bone'', node_type = ''organism'', node_size = None,
     pos_x = 0, pos_y = 0, vx = 0, vy = 0, fx = None, fy = None\<rparr>"

definition node_b :: GraphNode where
  "node_b = \<lparr>node_id = ''b'', label = ''Muscle'', node_type = ''organism'', node_size = Some 4,
     pos_x = 10, pos_y = 20, vx = 1, vy = 2, fx = Some 7, fy = Some 9\<rparr>"

definition node_c :: GraphNode where
  "node_c = \<lparr>node_id = ''c'', label = ''Heart'', node_type = ''organism'', node_size = Some 5,
     pos_x = 6, pos_y = 8, vx = 0, vy = 0, fx = None, fy = None\<rparr>"

definition sim_ab :: Simulation where
  "sim_ab = \<lparr>sim_nodes = [node_a, node_b], links = [(0, 1)], alpha = 0, alphaMin = 1/4,
     alphaDecay = 1/2, alphaTarget = 0, state = Idle\<rparr>"

text \<open>
  Two free nodes at rest: as \<open>build\<close> leaves them, and settled, with the clock Idle.
\<close>

definition sim_free :: Simulation where
  "sim_free = \<lparr>sim_nodes = [node_a, node_c], links = [], alpha = 1, alphaMin = 1/4,
     alphaDecay = 1/2, alphaTarget = 0, state = Running\<rparr>"

definition sim_rest :: Simulation where
  "sim_rest = \<lparr>sim_nodes = [node_a, node_c], links = [], alpha = 1/8, alphaMin = 1/4,
     alphaDecay = 1/2, alphaTarget = 0, state = Idle\<rparr>"

definition push_right :: forces where
  "push_right a ns i = (a, - a)"

subsection \<open>A pinned node stays on its pin\<close>

lemma step_nth:
  "i < length ns \<Longrightarrow> step F a ns ! i = integrate (F a ns i) (ns ! i)"
  by (simp add: step_def)

lemma length_step: "length (step F a ns) = length ns"
  by (simp add: step_def)

text \<open>
  C1. After any tick, a node that had a pin position \<open>(p, q)\<close> when the tick ran is at
  \<open>(p, q)\<close> with velocity zero on both axes, whatever the forces and the temperature; its
  pin is still set.
\<close>

theorem pinned_node_tick:
  assumes "i < length (sim_nodes s)"
    and "fx (sim_nodes s ! i) = Some p"
    and "fy (sim_nodes s ! i) = Some q"
  shows "pos_x (sim_nodes (tick F s) ! i) = p \<and> pos_y (sim_nodes (tick F s) ! i) = q \<and>
         vx (sim_nodes (tick F s) ! i) = 0 \<and> vy (sim_nodes (tick F s) ! i) = 0 \<and>
         fx (sim_nodes (tick F s) ! i) = Some p \<and> fy (sim_nodes (tick F s) ! i) = Some q"
proof -
  let ?a = "alpha s * (1 - alphaDecay s)"
  have "sim_nodes (tick F s) ! i = integrate (F ?a (sim_nodes s) i) (sim_nodes s ! i)"
    using assms(1) by (simp add: tick_def Let_def step_nth)
  then show ?thesis
    using assms(2,3) by (simp add: integrate_def)
qed

theorem pinned_node_tick_witness:
  "1 < length (sim_nodes sim_ab) \<and> fx (sim_nodes sim_ab ! 1) = Some 7 \<and>
   fy (sim_nodes sim_ab ! 1) = Some 9 \<and>
   pos_x (sim_nodes (tick push_right sim_ab) ! 1) = 7 \<and>
   pos_y (sim_nodes (tick push_right sim_ab) ! 1) = 9 \<and>
   vx (sim_nodes (tick push_right sim_ab) ! 1) = 0 \<and>
   vy (sim_nodes (tick push_right sim_ab) ! 1) = 0"
proof -
  have h: "1 < length (sim_nodes sim_ab)" "fx (sim_nodes sim_ab ! 1) = Some 7"
    "fy (sim_nodes sim_ab ! 1) = Some 9"
    by (simp_all add: sim_ab_def node_b_def)
  from pinned_node_tick [OF h, of push_right] h show ?thesis by simp
qed

subsection \<open>The collision force separates two overlapping nodes\<close>

text \<open>
  \<^verbatim>\<open>d3.forceCollide().radius((d: any) => (d.size || 5) * 3)\<close>

  \<^verbatim>\<open>||\<close> takes \<open>5\<close> for a missing size and for the size \<open>0\<close>.
\<close>

definition radius :: "GraphNode \<Rightarrow> real" where
  "radius d = (case node_size d of None \<Rightarrow> 5 | Some z \<Rightarrow> if z = 0 then 5 else z) * 3"










lemma radius_integrate [simp]: "radius (integrate f n) = radius n"
  by (simp add: radius_def integrate_def)












subsection \<open>The clock while alpha decays\<close>







section \<open>KnowledgeGraphController\<close>

text \<open>
  What a call of the controller can throw: a \<^verbatim>\<open>TypeError\<close> on reading a property of
  \<^verbatim>\<open>null\<close> or \<^verbatim>\<open>undefined\<close>, the failure of the request in
  \<^verbatim>\<open>APIService.getKnowledgeGraph\<close>, and the spec's \<^verbatim>\<open>InvalidGraphError\<close> of graph
  construction.
\<close>

datatype error = InvalidGraphError | TypeError | RequestFailed

text \<open>The transform of the drawn group \<^verbatim>\<open>g\<close>: the spec's viewport transform.\<close>

record ViewportTransform =
  translateX :: real
  translateY :: real
  scale :: real

definition zoomIdentity :: ViewportTransform where
  "zoomIdentity = \<lparr>translateX = 0, translateY = 0, scale = 1\<rparr>"

datatype toast_type = Success | Failure | Warning | Info

text \<open>
  The fields of the class and what its methods reach: \<^verbatim>\<open>this.graphData\<close>,
  \<^verbatim>\<open>this.simulation\<close> (\<^verbatim>\<open>null\<close> until a graph is displayed), the transform of \<^verbatim>\<open>g\<close>,
  whether the element \<^verbatim>\<open>#graph-tooltip\<close> is in the document, and the toasts shown by
  \<^verbatim>\<open>this.toastService\<close>. \<open>replaced\<close> holds the simulations that an assignment to
  \<^verbatim>\<open>this.simulation\<close> has overwritten, oldest first: no field refers to them any more
  and no call reaches them, but one that was Running when it was overwritten still has
  its tick scheduled on every frame (spec 4.3).
\<close>

record Controller =
  graphData :: "KnowledgeGraphData option"
  simulation :: "Simulation option"
  replaced :: "Simulation list"
  transform :: ViewportTransform
  tooltip :: bool
  toasts :: "(toast_type \<times> string) list"

subsection \<open>Drag behaviour\<close>

text \<open>
  The drag event of d3 as the handlers read it: \<^verbatim>\<open>event.active\<close>, the number of other
  drag gestures in progress; \<^verbatim>\<open>event.subject\<close>, the dragged node, as its position in the
  node list of the simulation; \<^verbatim>\<open>event.x\<close>, \<^verbatim>\<open>event.y\<close>, the pointer.
\<close>

record DragEvent =
  active :: nat
  subject :: nat
  pointer_x :: real
  pointer_y :: real

text \<open>
  An assignment to a field of \<^verbatim>\<open>event.subject\<close> changes that node object, which the
  simulation shares. A subject that is not a node of the current simulation (a graph
  reloaded during the drag) leaves it as it is.
\<close>

definition update_subject :: "nat \<Rightarrow> (GraphNode \<Rightarrow> GraphNode) \<Rightarrow> Simulation \<Rightarrow> Simulation" where
  "update_subject i f s =
     (if i < length (sim_nodes s)
      then s\<lparr>sim_nodes := (sim_nodes s)[i := f (sim_nodes s ! i)]\<rparr>
      else s)"

text \<open>\<^verbatim>\<open>event.subject.fx = event.subject.x; event.subject.fy = event.subject.y;\<close>\<close>

definition pin_here :: "GraphNode \<Rightarrow> GraphNode" where
  "pin_here n = n\<lparr>fx := Some (pos_x n), fy := Some (pos_y n)\<rparr>"

text \<open>\<^verbatim>\<open>event.subject.fx = event.x; event.subject.fy = event.y;\<close>\<close>

definition pin_at :: "real \<Rightarrow> real \<Rightarrow> GraphNode \<Rightarrow> GraphNode" where
  "pin_at px py n = n\<lparr>fx := Some px, fy := Some py\<rparr>"

text \<open>\<^verbatim>\<open>event.subject.fx = null; event.subject.fy = null;\<close>\<close>

definition unpin :: "GraphNode \<Rightarrow> GraphNode" where
  "unpin n = n\<lparr>fx := None, fy := None\<rparr>"

text \<open>
  \<^verbatim>\<open>.on("start", (event) => {
  if (!event.active) this.simulation.alphaTarget(0.3).restart();
  event.subject.fx = event.subject.x;
  event.subject.fy = event.subject.y; })\<close>

  The call on \<^verbatim>\<open>this.simulation\<close> throws when the field is \<^verbatim>\<open>null\<close>.
\<close>

definition on_drag_start :: "DragEvent \<Rightarrow> Controller \<Rightarrow> error + Controller" where
  "on_drag_start event c =
     (if active event = 0
      then (case simulation c of
              None \<Rightarrow> Inl TypeError
            | Some s \<Rightarrow>
                Inr (c\<lparr>simulation :=
                         Some (update_subject (subject event) pin_here
                                 (restart (set_alphaTarget (3/10) s)))\<rparr>))
      else Inr (c\<lparr>simulation :=
                    map_option (update_subject (subject event) pin_here) (simulation c)\<rparr>))"

text \<open>
  \<^verbatim>\<open>.on("drag", (event) => { event.subject.fx = event.x; event.subject.fy = event.y; })\<close>
\<close>

definition on_drag :: "DragEvent \<Rightarrow> Controller \<Rightarrow> error + Controller" where
  "on_drag event c =
     Inr (c\<lparr>simulation :=
              map_option (update_subject (subject event)
                            (pin_at (pointer_x event) (pointer_y event)))
                (simulation c)\<rparr>)"

text \<open>
  \<^verbatim>\<open>.on("end", (event) => {
  if (!event.active) this.simulation.alphaTarget(0);
  event.subject.fx = null;
  event.subject.fy = null; })\<close>
\<close>

definition on_drag_end :: "DragEvent \<Rightarrow> Controller \<Rightarrow> error + Controller" where
  "on_drag_end event c =
     (if active event = 0
      then (case simulation c of
              None \<Rightarrow> Inl TypeError
            | Some s \<Rightarrow>
                Inr (c\<lparr>simulation := Some (update_subject (subject event) unpin (cool s))\<rparr>))
      else Inr (c\<lparr>simulation :=
                    map_option (update_subject (subject event) unpin) (simulation c)\<rparr>))"

text \<open>The simulation a handler leaves behind, if it returned.\<close>

definition sim_after :: "error + Controller \<Rightarrow> Simulation option" where
  "sim_after r = (case r of Inl e \<Rightarrow> None | Inr c \<Rightarrow> simulation c)"

text \<open>
  Concrete inputs: a controller showing the two-node graph at rest, the same while a
  first drag holds the simulation hot, and the start or end of a gesture with no other
  gesture in progress and with one. Then a controller showing the settled graph of two
  free nodes, the same after a first finger has started to drag the first node, and the
  start of a second gesture, on the other node, during the first.
\<close>

definition ctl_ab :: Controller where
  "ctl_ab = \<lparr>graphData = None, simulation = Some sim_ab, replaced = [],
     transform = zoomIdentity, tooltip = False, toasts = []\<rparr>"

definition ctl_dragging :: Controller where
  "ctl_dragging = ctl_ab\<lparr>simulation := Some (reheat (3/10) sim_ab)\<rparr>"

definition first_finger :: DragEvent where
  "first_finger = \<lparr>active = 0, subject = 0, pointer_x = 5, pointer_y = 6\<rparr>"

definition second_finger :: DragEvent where
  "second_finger = \<lparr>active = 1, subject = 0, pointer_x = 5, pointer_y = 6\<rparr>"

definition ctl_settled :: Controller where
  "ctl_settled = \<lparr>graphData = None, simulation = Some sim_rest, replaced = [],
     transform = zoomIdentity, tooltip = False, toasts = []\<rparr>"

definition sim_hot :: Simulation where
  "sim_hot = update_subject 0 pin_here (restart (set_alphaTarget (3/10) sim_rest))"

definition ctl_hot :: Controller where
  "ctl_hot = ctl_settled\<lparr>simulation := Some sim_hot\<rparr>"

definition other_finger :: DragEvent where
  "other_finger = \<lparr>active = 1, subject = 1, pointer_x = 6, pointer_y = 8\<rparr>"

lemma update_subject_clock [simp]:
  "alpha (update_subject i f s) = alpha s"
  "alphaMin (update_subject i f s) = alphaMin s"
  "alphaDecay (update_subject i f s) = alphaDecay s"
  "alphaTarget (update_subject i f s) = alphaTarget s"
  "state (update_subject i f s) = state s"
  "links (update_subject i f s) = links s"
  "length (sim_nodes (update_subject i f s)) = length (sim_nodes s)"
  by (simp_all add: update_subject_def)

lemma update_subject_nth:
  "j < length (sim_nodes s) \<Longrightarrow>
   sim_nodes (update_subject i f s) ! j = (if j = i then f (sim_nodes s ! j) else sim_nodes s ! j)"
  by (simp add: update_subject_def)

lemma update_subject_map:
  assumes "\<And>n. g (f n) = g n"
  shows "map g (sim_nodes (update_subject i f s)) = map g (sim_nodes s)"
  by (simp add: update_subject_def map_update assms list_update_same_conv)

text \<open>
  C4, as stated, fails on the first drag of a settled graph: the handler calls
  \<^verbatim>\<open>alphaTarget(0.3).restart()\<close>, which sets the target of alpha and restarts the clock,
  and alpha stays what it was instead of becoming \<open>max alpha 0.3\<close>. It fails again on a
  second gesture that starts during the first: the handler then makes no call on the
  simulation at all.
\<close>

theorem drag_start_counterexample:
  "simulation ctl_settled = Some sim_rest \<and> state sim_rest = Idle \<and> alpha sim_rest = 1/8 \<and>
   on_drag_start first_finger ctl_settled = Inr ctl_hot \<and>
   map fx (sim_nodes sim_hot) = [Some 0, None] \<and>
   state sim_hot = Running \<and> alphaTarget sim_hot = 3/10 \<and>
   alpha sim_hot \<noteq> max (alpha sim_rest) (3/10) \<and>
   sim_hot \<noteq> update_subject 0 pin_here (reheat (3/10) sim_rest) \<and>
   sim_after (on_drag_start other_finger ctl_hot) = Some (update_subject 1 pin_here sim_hot) \<and>
   map_option alpha (sim_after (on_drag_start other_finger ctl_hot))
     \<noteq> Some (max (alpha sim_hot) (3/10)) \<and>
   sim_after (on_drag_start other_finger ctl_hot)
     \<noteq> Some (update_subject 1 pin_here (reheat (3/10) sim_hot))"
proof -
  have s: "simulation ctl_settled = Some sim_rest" by (simp add: ctl_settled_def)
  have i: "state sim_rest = Idle" "alpha sim_rest = 1/8" by (simp_all add: sim_rest_def)
  have r: "on_drag_start first_finger ctl_settled = Inr ctl_hot"
    by (simp add: on_drag_start_def first_finger_def ctl_settled_def ctl_hot_def sim_hot_def)
  have n: "map fx (sim_nodes sim_hot) = [Some 0, None]"
    by (simp add: sim_hot_def update_subject_def pin_here_def restart_def set_alphaTarget_def
          sim_rest_def node_a_def node_c_def)
  have h: "state sim_hot = Running" "alphaTarget sim_hot = 3/10" "alpha sim_hot = 1/8"
    by (simp_all add: sim_hot_def restart_def set_alphaTarget_def i)
  have a: "alpha sim_hot \<noteq> max (alpha sim_rest) (3/10)"
    by (simp add: h i)
  have d: "sim_hot \<noteq> update_subject 0 pin_here (reheat (3/10) sim_rest)"
  proof
    assume "sim_hot = update_subject 0 pin_here (reheat (3/10) sim_rest)"
    then have "alpha sim_hot = alpha (update_subject 0 pin_here (reheat (3/10) sim_rest))"
      by simp
    then show False by (simp add: h i reheat_def)
  qed
  have o: "sim_after (on_drag_start other_finger ctl_hot)
             = Some (update_subject 1 pin_here sim_hot)"
    by (simp add: on_drag_start_def other_finger_def ctl_hot_def sim_after_def)
  have e: "update_subject 1 pin_here sim_hot \<noteq> update_subject 1 pin_here (reheat (3/10) sim_hot)"
  proof
    assume "update_subject 1 pin_here sim_hot = update_subject 1 pin_here (reheat (3/10) sim_hot)"
    then have "alpha (update_subject 1 pin_here sim_hot)
                 = alpha (update_subject 1 pin_here (reheat (3/10) sim_hot))"
      by simp
    then show False by (simp add: h reheat_def)
  qed
  show ?thesis
    unfolding o using s i r n h a d e by simp
qed

text \<open>
  C4, amended. On a controller that has a simulation, every drag start returns normally
  and pins the dragged node at its current position, \<open>fx := x\<close> and \<open>fy := y\<close>, changing
  no other pin, no position or velocity, and not alpha. When no other drag gesture is in
  progress it also calls \<^verbatim>\<open>alphaTarget(0.3).restart()\<close>: the target that alpha is forced up
  to becomes \<open>0.3\<close> and the clock is Running with a tick scheduled. When another gesture
  is in progress the clock is left as it is.
\<close>

theorem drag_start_pins_and_reheats:
  assumes "simulation c = Some s"
  shows "\<exists>s'. on_drag_start event c = Inr (c\<lparr>simulation := Some s'\<rparr>) \<and>
     (\<forall>j < length (sim_nodes s).
        fx (sim_nodes s' ! j) = (if j = subject event then Some (pos_x (sim_nodes s ! j))
                                 else fx (sim_nodes s ! j)) \<and>
        fy (sim_nodes s' ! j) = (if j = subject event then Some (pos_y (sim_nodes s ! j))
                                 else fy (sim_nodes s ! j))) \<and>
     map pos_x (sim_nodes s') = map pos_x (sim_nodes s) \<and>
     map pos_y (sim_nodes s') = map pos_y (sim_nodes s) \<and>
     map vx (sim_nodes s') = map vx (sim_nodes s) \<and>
     map vy (sim_nodes s') = map vy (sim_nodes s) \<and>
     alpha s' = alpha s \<and>
     (active event = 0 \<longrightarrow>
        alphaTarget s' = 3/10 \<and> forced_up s' \<and> state s' = Running \<and> scheduled s') \<and>
     (active event \<noteq> 0 \<longrightarrow> alphaTarget s' = alphaTarget s \<and> state s' = state s)"
proof -
  let ?s0 = "if active event = 0 then restart (set_alphaTarget (3/10) s) else s"
  let ?s' = "update_subject (subject event) pin_here ?s0"
  have n: "sim_nodes ?s0 = sim_nodes s" by (simp add: restart_def set_alphaTarget_def)
  have r: "on_drag_start event c = Inr (c\<lparr>simulation := Some ?s'\<rparr>)"
    using assms by (simp add: on_drag_start_def)
  have p: "\<forall>j < length (sim_nodes s).
        fx (sim_nodes ?s' ! j) = (if j = subject event then Some (pos_x (sim_nodes s ! j))
                                 else fx (sim_nodes s ! j)) \<and>
        fy (sim_nodes ?s' ! j) = (if j = subject event then Some (pos_y (sim_nodes s ! j))
                                 else fy (sim_nodes s ! j))"
    using n by (simp add: update_subject_nth pin_here_def restart_def set_alphaTarget_def)
  have k: "map pos_x (sim_nodes ?s') = map pos_x (sim_nodes s)"
    "map pos_y (sim_nodes ?s') = map pos_y (sim_nodes s)"
    "map vx (sim_nodes ?s') = map vx (sim_nodes s)"
    "map vy (sim_nodes ?s') = map vy (sim_nodes s)"
    using n by (simp_all add: update_subject_map pin_here_def del: if_split)
  have a: "alpha ?s' = alpha s"
    by (simp add: restart_def set_alphaTarget_def)
  have h: "active event = 0 \<longrightarrow>
        alphaTarget ?s' = 3/10 \<and> forced_up ?s' \<and> state ?s' = Running \<and> scheduled ?s'"
    by (simp add: restart_def set_alphaTarget_def scheduled_def forced_up_def)
  have u: "active event \<noteq> 0 \<longrightarrow> alphaTarget ?s' = alphaTarget s \<and> state ?s' = state s"
    by simp
  show ?thesis
    by (rule exI [of _ ?s'], intro conjI) (use r p k a h u in blast)+
qed

theorem drag_start_pins_and_reheats_witness:
  "simulation ctl_settled = Some sim_rest \<and>
   map_option state (sim_after (on_drag_start first_finger ctl_settled)) = Some Running \<and>
   map_option alphaTarget (sim_after (on_drag_start first_finger ctl_settled)) = Some (3/10) \<and>
   map_option alpha (sim_after (on_drag_start first_finger ctl_settled)) = Some (1/8) \<and>
   map_option (map fx \<circ> sim_nodes) (sim_after (on_drag_start first_finger ctl_settled))
     = Some [Some 0, None]"
proof -
  have h: "simulation ctl_settled = Some sim_rest" by (simp add: ctl_settled_def)
  have a: "active first_finger = 0" "subject first_finger = 0"
    by (simp_all add: first_finger_def)
  have n: "sim_nodes sim_rest = [node_a, node_c]" "alpha sim_rest = 1/8"
    by (simp_all add: sim_rest_def)
  have f: "pos_x node_a = 0" "fx node_c = None"
    by (simp_all add: node_a_def node_c_def)
  from drag_start_pins_and_reheats [OF h, of first_finger]
  obtain s' where r: "on_drag_start first_finger ctl_settled
                        = Inr (ctl_settled\<lparr>simulation := Some s'\<rparr>)"
    and p: "\<forall>j < length (sim_nodes sim_rest).
        fx (sim_nodes s' ! j) = (if j = subject first_finger
                                 then Some (pos_x (sim_nodes sim_rest ! j))
                                 else fx (sim_nodes sim_rest ! j))"
    and l: "map pos_x (sim_nodes s') = map pos_x (sim_nodes sim_rest)"
    and c: "alpha s' = alpha sim_rest" "alphaTarget s' = 3/10" "state s' = Running"
    using a by auto
  from l have len: "length (sim_nodes s') = 2"
    using n by (metis length_map length_Cons list.size(3) numeral_2_eq_2)
  from p have "fx (sim_nodes s' ! 0) = Some 0" "fx (sim_nodes s' ! 1) = None"
    using a n f by simp_all
  with len have "map fx (sim_nodes s') = [Some 0, None]"
    by (cases "sim_nodes s'"; cases "tl (sim_nodes s')") auto
  with h r c n show ?thesis by (simp add: sim_after_def)
qed

text \<open>
  C5, as stated, fails for a drag that ends while another drag gesture is in progress:
  the pin is cleared, but \<^verbatim>\<open>alphaTarget(0)\<close> is not called and alpha stays forced up.
\<close>

theorem drag_end_counterexample:
  "map_option forced_up (simulation ctl_dragging) = Some True \<and>
   map_option (map fx \<circ> sim_nodes) (sim_after (on_drag_end second_finger ctl_dragging))
     = Some [None, Some 7] \<and>
   map_option alphaTarget (sim_after (on_drag_end second_finger ctl_dragging)) = Some (3/10) \<and>
   map_option forced_up (sim_after (on_drag_end second_finger ctl_dragging)) \<noteq> Some False \<and>
   sim_after (on_drag_end second_finger ctl_dragging)
     \<noteq> map_option (update_subject 0 unpin \<circ> cool) (simulation ctl_dragging)"
proof -
  let ?hot = "reheat (3/10) sim_ab"
  have r: "sim_after (on_drag_end second_finger ctl_dragging)
             = Some (update_subject 0 unpin ?hot)"
    by (simp add: on_drag_end_def second_finger_def ctl_dragging_def ctl_ab_def sim_after_def)
  have s: "simulation ctl_dragging = Some ?hot" by (simp add: ctl_dragging_def)
  have i: "alphaTarget ?hot = 3/10" "forced_up ?hot"
    by (simp_all add: reheat_def forced_up_def)
  have n: "map fx (sim_nodes (update_subject 0 unpin ?hot)) = [None, Some 7]"
    by (simp add: update_subject_def unpin_def reheat_def sim_ab_def node_a_def node_b_def)
  have d: "update_subject 0 unpin ?hot \<noteq> update_subject 0 unpin (cool ?hot)"
  proof
    assume "update_subject 0 unpin ?hot = update_subject 0 unpin (cool ?hot)"
    then have "alphaTarget (update_subject 0 unpin ?hot)
                 = alphaTarget (update_subject 0 unpin (cool ?hot))"
      by simp
    then show False by (simp add: i cool_def)
  qed
  show ?thesis
    unfolding r s using i n d by (simp add: forced_up_def)
qed

text \<open>
  C5, amended. On a controller that has a simulation, every drag end returns normally
  and clears the pin of the dragged node, changing no other pin and no position or
  velocity, so that the next tick moves the node by its velocity and the forces; alpha
  and the clock state are not changed and the next tick decays alpha by the factor
  \<open>1 - alphaDecay\<close>. When no other drag gesture is in progress it also cools the
  simulation: alpha is no longer forced up. When another gesture is in progress the
  target of alpha is left as it is.
\<close>

theorem drag_end_unpins_and_cools:
  assumes "simulation c = Some s"
  shows "\<exists>s'. on_drag_end event c = Inr (c\<lparr>simulation := Some s'\<rparr>) \<and>
     (\<forall>j < length (sim_nodes s).
        fx (sim_nodes s' ! j) = (if j = subject event then None else fx (sim_nodes s ! j)) \<and>
        fy (sim_nodes s' ! j) = (if j = subject event then None else fy (sim_nodes s ! j))) \<and>
     map pos_x (sim_nodes s') = map pos_x (sim_nodes s) \<and>
     map pos_y (sim_nodes s') = map pos_y (sim_nodes s) \<and>
     map vx (sim_nodes s') = map vx (sim_nodes s) \<and>
     map vy (sim_nodes s') = map vy (sim_nodes s) \<and>
     (subject event < length (sim_nodes s) \<longrightarrow>
        pos_x (sim_nodes (tick F s') ! subject event)
          = pos_x (sim_nodes s ! subject event) + (vx (sim_nodes s ! subject event)
              + fst (F (alpha s * (1 - alphaDecay s)) (sim_nodes s') (subject event))) \<and>
        pos_y (sim_nodes (tick F s') ! subject event)
          = pos_y (sim_nodes s ! subject event) + (vy (sim_nodes s ! subject event)
              + snd (F (alpha s * (1 - alphaDecay s)) (sim_nodes s') (subject event)))) \<and>
     alpha s' = alpha s \<and> state s' = state s \<and>
     alpha (tick F s') = alpha s * (1 - alphaDecay s) \<and>
     (active event = 0 \<longrightarrow> alphaTarget s' = 0 \<and> \<not> forced_up s') \<and>
     (active event \<noteq> 0 \<longrightarrow> alphaTarget s' = alphaTarget s)"
proof -
  let ?s0 = "if active event = 0 then cool s else s"
  let ?s' = "update_subject (subject event) unpin ?s0"
  let ?i = "subject event"
  have n: "sim_nodes ?s0 = sim_nodes s" by (simp add: cool_def)
  have r: "on_drag_end event c = Inr (c\<lparr>simulation := Some ?s'\<rparr>)"
    using assms by (simp add: on_drag_end_def)
  have p: "\<forall>j < length (sim_nodes s).
        fx (sim_nodes ?s' ! j) = (if j = subject event then None else fx (sim_nodes s ! j)) \<and>
        fy (sim_nodes ?s' ! j) = (if j = subject event then None else fy (sim_nodes s ! j))"
    using n by (simp add: update_subject_nth unpin_def cool_def)
  have k: "map pos_x (sim_nodes ?s') = map pos_x (sim_nodes s)"
    "map pos_y (sim_nodes ?s') = map pos_y (sim_nodes s)"
    "map vx (sim_nodes ?s') = map vx (sim_nodes s)"
    "map vy (sim_nodes ?s') = map vy (sim_nodes s)"
    using n by (simp_all add: update_subject_map unpin_def del: if_split)
  have cl: "alpha ?s' = alpha s" "state ?s' = state s" "alphaDecay ?s' = alphaDecay s"
    by (simp_all add: cool_def)
  have t: "alpha (tick F ?s') = alpha s * (1 - alphaDecay s)"
    by (simp add: tick_def Let_def cool_def)
  have m: "subject event < length (sim_nodes s) \<longrightarrow>
        pos_x (sim_nodes (tick F ?s') ! ?i)
          = pos_x (sim_nodes s ! ?i) + (vx (sim_nodes s ! ?i)
              + fst (F (alpha s * (1 - alphaDecay s)) (sim_nodes ?s') ?i)) \<and>
        pos_y (sim_nodes (tick F ?s') ! ?i)
          = pos_y (sim_nodes s ! ?i) + (vy (sim_nodes s ! ?i)
              + snd (F (alpha s * (1 - alphaDecay s)) (sim_nodes ?s') ?i))"
  proof
    assume i: "?i < length (sim_nodes s)"
    then have u: "sim_nodes ?s' ! ?i = unpin (sim_nodes s ! ?i)"
      using n by (simp add: update_subject_nth cool_def)
    have "sim_nodes (tick F ?s') ! ?i
        = integrate (F (alpha s * (1 - alphaDecay s)) (sim_nodes ?s') ?i) (sim_nodes ?s' ! ?i)"
      using i n by (simp add: tick_def Let_def step_nth cool_def)
    then show "pos_x (sim_nodes (tick F ?s') ! ?i)
          = pos_x (sim_nodes s ! ?i) + (vx (sim_nodes s ! ?i)
              + fst (F (alpha s * (1 - alphaDecay s)) (sim_nodes ?s') ?i)) \<and>
        pos_y (sim_nodes (tick F ?s') ! ?i)
          = pos_y (sim_nodes s ! ?i) + (vy (sim_nodes s ! ?i)
              + snd (F (alpha s * (1 - alphaDecay s)) (sim_nodes ?s') ?i))"
      unfolding u by (simp add: integrate_def unpin_def)
  qed
  have h: "active event = 0 \<longrightarrow> alphaTarget ?s' = 0 \<and> \<not> forced_up ?s'"
    by (simp add: cool_def forced_up_def)
  have u: "active event \<noteq> 0 \<longrightarrow> alphaTarget ?s' = alphaTarget s"
    by simp
  show ?thesis
    by (rule exI [of _ ?s'], intro conjI) (use r p k m cl t h u in blast)+
qed

theorem drag_end_unpins_and_cools_witness:
  "simulation ctl_dragging = Some (reheat (3/10) sim_ab) \<and>
   forced_up (reheat (3/10) sim_ab) \<and>
   map_option forced_up (sim_after (on_drag_end first_finger ctl_dragging)) = Some False \<and>
   map_option state (sim_after (on_drag_end first_finger ctl_dragging)) = Some Running \<and>
   map_option alpha (sim_after (on_drag_end first_finger ctl_dragging)) = Some (3/10)"
proof -
  have h: "simulation ctl_dragging = Some (reheat (3/10) sim_ab)"
    by (simp add: ctl_dragging_def)
  have a: "active first_finger = 0" by (simp add: first_finger_def)
  have b: "alpha (reheat (3/10) sim_ab) = 3/10" "state (reheat (3/10) sim_ab) = Running"
    "forced_up (reheat (3/10) sim_ab)"
    by (simp_all add: reheat_def sim_ab_def forced_up_def)
  from drag_end_unpins_and_cools [OF h, of first_finger push_right]
  obtain s' where "on_drag_end first_finger ctl_dragging = Inr (ctl_dragging\<lparr>simulation := Some s'\<rparr>)"
    and "alpha s' = alpha (reheat (3/10) sim_ab)" "state s' = state (reheat (3/10) sim_ab)"
    and "\<not> forced_up s'"
    using a by auto
  with h b show ?thesis by (simp add: sim_after_def)
qed

subsection \<open>Teardown\<close>

text \<open>
  \<^verbatim>\<open>destroy(): void {
  if (this.simulation) { this.simulation.stop(); }
  const tooltip = document.getElementById("graph-tooltip");
  if (tooltip) tooltip.remove(); }\<close>

  Both steps are guarded, so the method has no throwing path; the field
  \<^verbatim>\<open>this.simulation\<close> keeps the stopped simulation.
\<close>

definition destroy :: "Controller \<Rightarrow> Controller" where
  "destroy c = c\<lparr>simulation := map_option stop (simulation c), tooltip := False\<rparr>"

text \<open>
  Modelled from the spec: a display frame of the page runs the scheduled tick of every
  simulation that has one: the one the controller holds and the ones that were replaced
  without being stopped.
\<close>

definition animation_frame :: "forces \<Rightarrow> Controller \<Rightarrow> Controller" where
  "animation_frame F c =
     c\<lparr>simulation := map_option (frame F) (simulation c),
       replaced := map (frame F) (replaced c)\<rparr>"

lemma frame_stop: "frame F (stop s) = stop s"
  by (simp add: frame_def scheduled_def stop_def)

lemma stop_stop: "stop (stop s) = stop s"
  by (simp add: stop_def)

lemma stop_idle: "state (stop s) = Idle" "\<not> scheduled (stop s)"
  by (simp_all add: stop_def scheduled_def)

lemma destroy_twice: "destroy (destroy c) = destroy c"
  by (cases "simulation c") (simp_all add: destroy_def stop_stop)

lemma destroy_stops_held:
  "simulation c = Some s \<Longrightarrow>
   simulation (destroy c) = Some (stop s) \<and> state (stop s) = Idle \<and> \<not> scheduled (stop s)"
  by (simp add: destroy_def stop_idle)

lemma frame_after_destroy:
  assumes "\<forall>s \<in> set (replaced c). \<not> scheduled s"
  shows "animation_frame F (destroy c) = destroy c"
proof -
  from assms have "map (frame F) (replaced c) = replaced c"
    by (induction "replaced c") (simp_all add: frame_def map_idI)
  then show ?thesis
    by (cases "simulation c") (simp_all add: destroy_def animation_frame_def frame_stop)
qed

subsection \<open>Pan and zoom\<close>

text \<open>\<^verbatim>\<open>d3.zoom().scaleExtent([0.5, 3])\<close>\<close>

definition scaleExtent :: "real \<times> real" where
  "scaleExtent = (1/2, 3)"

text \<open>
  Modelled from the spec: the zoom behaviour of d3, which turns a gesture into
  \<^verbatim>\<open>event.transform\<close>, is missing from the sources. Spec 4.4: "a continuous gesture
  producing a \<^verbatim>\<open>(translateX, translateY, scale)\<close> sample on every movement event; clamps
  scale into the configured range".
\<close>

definition clamp_scale :: "real \<times> real \<Rightarrow> ViewportTransform \<Rightarrow> ViewportTransform" where
  "clamp_scale ext t = t\<lparr>scale := max (fst ext) (min (snd ext) (scale t))\<rparr>"

text \<open>\<^verbatim>\<open>.on("zoom", (event) => { g.attr("transform", event.transform); })\<close>\<close>

definition on_zoom :: "ViewportTransform \<Rightarrow> Controller \<Rightarrow> Controller" where
  "on_zoom t c = c\<lparr>transform := t\<rparr>"

text \<open>One gesture sample: clamped by the zoom behaviour, then handed to the handler.\<close>

definition pan_zoom :: "Controller \<Rightarrow> ViewportTransform \<Rightarrow> Controller" where
  "pan_zoom c sample = on_zoom (clamp_scale scaleExtent sample) c"

definition pinch_in :: ViewportTransform where
  "pinch_in = \<lparr>translateX = 12, translateY = - 4, scale = 10\<rparr>"

definition pinch_out :: ViewportTransform where
  "pinch_out = \<lparr>translateX = 0, translateY = 30, scale = 1/10\<rparr>"

lemma pan_zoom_scale:
  "1/2 \<le> scale (transform (pan_zoom c t)) \<and> scale (transform (pan_zoom c t)) \<le> 3"
  by (simp add: pan_zoom_def on_zoom_def clamp_scale_def scaleExtent_def)

lemma pan_zoom_model:
  "simulation (pan_zoom c t) = simulation c \<and> graphData (pan_zoom c t) = graphData c"
  by (simp add: pan_zoom_def on_zoom_def)

lemma foldl_pan_zoom_model:
  "simulation (foldl pan_zoom c ts) = simulation c \<and>
   graphData (foldl pan_zoom c ts) = graphData c"
  by (induction ts arbitrary: c) (simp_all add: pan_zoom_model)

text \<open>
  C6. After each sample of any sequence of pan/zoom gesture samples, the scale of the
  viewport transform lies in \<open>[0.5, 3]\<close>, and the simulation (node positions, velocities
  and pins) and the graph data are what they were before the sequence.
\<close>

theorem zoom_scale_clamped:
  assumes "samples \<noteq> []"
  shows "1/2 \<le> scale (transform (foldl pan_zoom c samples)) \<and>
         scale (transform (foldl pan_zoom c samples)) \<le> 3 \<and>
         simulation (foldl pan_zoom c samples) = simulation c \<and>
         graphData (foldl pan_zoom c samples) = graphData c"
proof -
  from assms obtain ts t where "samples = ts @ [t]"
    by (metis rev_exhaust)
  then show ?thesis
    using pan_zoom_scale [of "foldl pan_zoom c ts" t] foldl_pan_zoom_model [of c samples]
    by simp
qed

theorem zoom_scale_clamped_witness:
  "[pinch_in, pinch_out] \<noteq> [] \<and>
   scale (transform (foldl pan_zoom ctl_ab [pinch_in])) = 3 \<and>
   scale (transform (foldl pan_zoom ctl_ab [pinch_in, pinch_out])) = 1/2 \<and>
   simulation (foldl pan_zoom ctl_ab [pinch_in, pinch_out]) = simulation ctl_ab"
proof -
  have h: "[pinch_in, pinch_out] \<noteq> []" by simp
  have a: "scale (transform (foldl pan_zoom ctl_ab [pinch_in])) = 3"
    by (simp add: pan_zoom_def on_zoom_def clamp_scale_def scaleExtent_def pinch_in_def)
  have b: "scale (transform (foldl pan_zoom ctl_ab [pinch_in, pinch_out])) = 1/2"
    by (simp add: pan_zoom_def on_zoom_def clamp_scale_def scaleExtent_def pinch_out_def)
  from zoom_scale_clamped [OF h, of ctl_ab] h a b show ?thesis by simp
qed

subsection \<open>Building and loading the graph\<close>

text \<open>
  The stop threshold and the decay of a new simulation are d3's defaults, which the
  source does not set and the spec does not give: they are parameters.
\<close>

record ClockConfig =
  default_alphaMin :: real
  default_alphaDecay :: real

text \<open>
  Modelled from the spec: the lookup of \<^verbatim>\<open>GraphModel.build(nodes, edges)\<close>, which in the
  source is
  \<^verbatim>\<open>d3.forceSimulation(data.nodes).force("link", d3.forceLink(data.edges).id((d) => d.id))\<close>
  with d3's code missing. Spec 3 and 9: edges are "resolved to live node references once at
  model-build time", "as an index lookup at build time". A fetched snapshot names the
  ends of an edge by id (spec 6).
\<close>

definition find_node :: "GraphNode list \<Rightarrow> string \<Rightarrow> nat option" where
  "find_node ns i = findIndex (\<lambda>n. node_id n = i) ns"

text \<open>
  Modelled from the spec: one edge resolved at build time, both ends looked up by id
  (the accessor \<^verbatim>\<open>.id((d) => d.id)\<close> of the source).
\<close>

definition resolve_edge :: "GraphNode list \<Rightarrow> GraphEdge \<Rightarrow> (nat \<times> nat) option" where
  "resolve_edge ns e =
     (case find_node ns (source e) of
        None \<Rightarrow> None
      | Some i \<Rightarrow> (case find_node ns (target e) of None \<Rightarrow> None | Some j \<Rightarrow> Some (i, j)))"

text \<open>Modelled from the spec: all edges resolved, in input order, or none.\<close>

fun resolve_edges :: "GraphNode list \<Rightarrow> GraphEdge list \<Rightarrow> (nat \<times> nat) list option" where
  "resolve_edges ns [] = Some []"
| "resolve_edges ns (e # es) =
     (case resolve_edge ns e of
        None \<Rightarrow> None
      | Some l \<Rightarrow> map_option (Cons l) (resolve_edges ns es))"

text \<open>
  Modelled from the spec: the build itself. It "fails with \<^verbatim>\<open>InvalidGraphError\<close> if any
  edge references an unknown node id" and otherwise gives the model with its clock
  started: alpha \<open>1.0\<close>, Running.
\<close>

definition build :: "ClockConfig \<Rightarrow> GraphNode list \<Rightarrow> GraphEdge list \<Rightarrow> error + Simulation" where
  "build cfg ns es =
     (case resolve_edges ns es of
        None \<Rightarrow> Inl InvalidGraphError
      | Some ls \<Rightarrow>
          Inr \<lparr>sim_nodes = ns, links = ls, alpha = 1, alphaMin = default_alphaMin cfg,
               alphaDecay = default_alphaDecay cfg, alphaTarget = 0, state = Running\<rparr>)"

text \<open>
  \<^verbatim>\<open>private displayGraph(data: KnowledgeGraphData): void {
  const graphContainer = document.querySelector(...) as HTMLElement;
  if (!graphContainer) { console.error("Graph container not found"); return; }
  graphContainer.innerHTML = ""; ...
  const g = svg.append("g"); ...
  this.simulation = d3.forceSimulation(data.nodes).force("link", ...)...; ... }\<close>

  The result is the error thrown to the caller, if any, and the controller as the call
  leaves it. The method is synchronous. \<open>graphContainer\<close> says whether the container
  element is in the page. A fresh group \<^verbatim>\<open>g\<close> has no transform. The assignment to
  \<^verbatim>\<open>this.simulation\<close> happens only when the construction on its right has returned,
  and nothing stops the simulation that the field held before. \<open>draw\<close> is the outcome of the drawing calls that follow it (the d3 selections,
  \<^verbatim>\<open>addControls\<close>, \<^verbatim>\<open>addStats\<close>), which throw on a snapshot whose fields are not the
  arrays they read.
\<close>

definition displayGraph ::
  "ClockConfig \<Rightarrow> bool \<Rightarrow> error option \<Rightarrow> KnowledgeGraphData \<Rightarrow> Controller
     \<Rightarrow> error option \<times> Controller" where
  "displayGraph cfg graphContainer draw data c =
     (if \<not> graphContainer then (None, c)
      else
        let c1 = c\<lparr>transform := zoomIdentity\<rparr>
        in (case build cfg (nodes data) (edges data) of
              Inl e \<Rightarrow> (Some e, c1)
            | Inr s \<Rightarrow>
                (draw, c1\<lparr>replaced := replaced c1 @ (case simulation c1 of
                                                     None \<Rightarrow> []
                                                   | Some old \<Rightarrow> [old]),
                          simulation := Some s\<rparr>)))"

text \<open>
  \<^verbatim>\<open>ToastService.show\<close> appends the toast to its container and has no throwing path.
\<close>

definition toast :: "toast_type \<Rightarrow> string \<Rightarrow> Controller \<Rightarrow> Controller" where
  "toast ty message c = c\<lparr>toasts := toasts c @ [(ty, message)]\<rparr>"

text \<open>
  \<^verbatim>\<open>async loadGraph(): Promise<void> {
  try {
    this.toastService.info("Loading knowledge graph...");
    const graphData = await this.apiService.getKnowledgeGraph(50);
    this.graphData = graphData;
    this.displayGraph(graphData);
    this.toastService.success("Knowledge graph loaded successfully");
  } catch (error) {
    console.error("Error loading knowledge graph:", error);
    this.toastService.error("Failed to load knowledge graph");
  } }\<close>

  \<open>fetched\<close> is the outcome of the awaited request. The body of \<^verbatim>\<open>try\<close> stops at the first throw; the
  \<^verbatim>\<open>catch\<close> block runs on what the body left; the promise rejects only with what
  escapes both. The call is taken as one step: what other event handlers do while the
  request is awaited is not part of it.
\<close>

definition loadGraph_try ::
  "error + KnowledgeGraphData \<Rightarrow> ClockConfig \<Rightarrow> bool \<Rightarrow> error option \<Rightarrow> Controller
     \<Rightarrow> error option \<times> Controller" where
  "loadGraph_try fetched cfg graphContainer draw c =
     (let c1 = toast Info ''Loading knowledge graph...'' c
      in (case fetched of
            Inl e \<Rightarrow> (Some e, c1)
          | Inr data \<Rightarrow>
              (case displayGraph cfg graphContainer draw data (c1\<lparr>graphData := Some data\<rparr>) of
                 (Some e, c3) \<Rightarrow> (Some e, c3)
               | (None, c3) \<Rightarrow> (None, toast Success ''Knowledge graph loaded successfully'' c3))))"

definition loadGraph_catch :: "error \<Rightarrow> Controller \<Rightarrow> error option \<times> Controller" where
  "loadGraph_catch e c = (None, toast Failure ''Failed to load knowledge graph'' c)"

datatype settled = Resolved | Rejected error

definition loadGraph ::
  "error + KnowledgeGraphData \<Rightarrow> ClockConfig \<Rightarrow> bool \<Rightarrow> error option \<Rightarrow> Controller
     \<Rightarrow> settled \<times> Controller" where
  "loadGraph fetched cfg graphContainer draw c =
     (case (case loadGraph_try fetched cfg graphContainer draw c of
              (Some e, c') \<Rightarrow> loadGraph_catch e c'
            | (None, c') \<Rightarrow> (None, c')) of
        (Some e, c'') \<Rightarrow> (Rejected e, c'')
      | (None, c'') \<Rightarrow> (Resolved, c''))"

text \<open>An edge is an orphan when one of its ids is the id of no node of the list.\<close>

definition orphan_edge :: "GraphNode list \<Rightarrow> GraphEdge \<Rightarrow> bool" where
  "orphan_edge ns e = (source e \<notin> node_id ` set ns \<or> target e \<notin> node_id ` set ns)"

text \<open>A pair of positions resolves an edge when the nodes there carry its two ids.\<close>

definition resolves :: "GraphNode list \<Rightarrow> GraphEdge \<Rightarrow> nat \<times> nat \<Rightarrow> bool" where
  "resolves ns e l =
     (fst l < length ns \<and> snd l < length ns \<and>
      node_id (ns ! fst l) = source e \<and> node_id (ns ! snd l) = target e)"

definition clock_cfg :: ClockConfig where
  "clock_cfg = \<lparr>default_alphaMin = 1/4, default_alphaDecay = 1/2\<rparr>"

definition edge_loop :: GraphEdge where
  "edge_loop = \<lparr>source = ''a'', target = ''a'', weight = None\<rparr>"

definition edge_ab :: GraphEdge where
  "edge_ab = \<lparr>source = ''a'', target = ''b'', weight = Some 1\<rparr>"

definition edge_az :: GraphEdge where
  "edge_az = \<lparr>source = ''a'', target = ''z'', weight = None\<rparr>"

lemma ids_ab: "node_id ` set [node_a, node_b] = {''a'', ''b''}"
  by (simp add: node_a_def node_b_def)

lemma findIndex_None: "findIndex p xs = None \<longleftrightarrow> (\<forall>x \<in> set xs. \<not> p x)"
  by (induction xs) auto

lemma findIndex_Some: "findIndex p xs = Some i \<Longrightarrow> i < length xs \<and> p (xs ! i)"
  by (induction xs arbitrary: i) (auto split: if_splits)

lemma find_node_None: "find_node ns i = None \<longleftrightarrow> i \<notin> node_id ` set ns"
  by (auto simp: find_node_def findIndex_None)

lemma resolve_edge_None: "resolve_edge ns e = None \<longleftrightarrow> orphan_edge ns e"
  by (auto simp: resolve_edge_def orphan_edge_def find_node_None [symmetric]
      split: option.splits)

lemma resolve_edge_Some: "resolve_edge ns e = Some l \<Longrightarrow> resolves ns e l"
  by (auto simp: resolve_edge_def resolves_def find_node_def
      split: option.splits dest: findIndex_Some)

lemma resolve_edges_None: "resolve_edges ns es = None \<longleftrightarrow> (\<exists>e \<in> set es. orphan_edge ns e)"
  by (induction es) (auto simp: resolve_edge_None [symmetric] split: option.splits)

lemma resolve_edges_Some:
  "resolve_edges ns es = Some ls \<Longrightarrow> list_all2 (resolves ns) es ls"
  by (induction es arbitrary: ls) (auto split: option.splits dest: resolve_edge_Some)

text \<open>
  C2. Building the graph fails, with \<open>InvalidGraphError\<close>, exactly when some edge names a
  source or target id that no node of the list has, and succeeds otherwise, self-loops
  included, with every edge resolved to positions in the node list. In \<open>displayGraph\<close>
  the error is thrown synchronously to the caller (\<open>loadGraph\<close>), and the controller
  keeps the simulation it had: no graph is built from the rejected snapshot.
\<close>

theorem build_rejects_orphans:
  "(build cfg ns es = Inl InvalidGraphError \<longleftrightarrow> (\<exists>e \<in> set es. orphan_edge ns e)) \<and>
   ((\<exists>g. build cfg ns es = Inr g) \<longleftrightarrow> (\<forall>e \<in> set es. \<not> orphan_edge ns e)) \<and>
   (\<forall>g. build cfg ns es = Inr g \<longrightarrow>
      sim_nodes g = ns \<and> list_all2 (resolves ns) es (links g) \<and> state g = Running \<and> alpha g = 1) \<and>
   fst (displayGraph cfg True draw \<lparr>nodes = ns, edges = es\<rparr> c)
     = (if \<exists>e \<in> set es. orphan_edge ns e then Some InvalidGraphError else draw) \<and>
   simulation (snd (displayGraph cfg True draw \<lparr>nodes = ns, edges = es\<rparr> c))
     = (case build cfg ns es of Inl e \<Rightarrow> simulation c | Inr g \<Rightarrow> Some g)"
proof (intro conjI)
  show a: "build cfg ns es = Inl InvalidGraphError \<longleftrightarrow> (\<exists>e \<in> set es. orphan_edge ns e)"
    by (simp add: build_def resolve_edges_None [symmetric] split: option.splits)
  show "(\<exists>g. build cfg ns es = Inr g) \<longleftrightarrow> (\<forall>e \<in> set es. \<not> orphan_edge ns e)"
    using resolve_edges_None [of ns es] by (auto simp: build_def split: option.splits)
  show "\<forall>g. build cfg ns es = Inr g \<longrightarrow>
      sim_nodes g = ns \<and> list_all2 (resolves ns) es (links g) \<and> state g = Running \<and> alpha g = 1"
    by (auto simp: build_def split: option.splits dest: resolve_edges_Some)
  show "fst (displayGraph cfg True draw \<lparr>nodes = ns, edges = es\<rparr> c)
     = (if \<exists>e \<in> set es. orphan_edge ns e then Some InvalidGraphError else draw)"
    using resolve_edges_None [of ns es]
    by (auto simp: displayGraph_def build_def Let_def split: option.splits)
  show "simulation (snd (displayGraph cfg True draw \<lparr>nodes = ns, edges = es\<rparr> c))
     = (case build cfg ns es of Inl e \<Rightarrow> simulation c | Inr g \<Rightarrow> Some g)"
    by (simp add: displayGraph_def Let_def split: sum.splits)
qed

theorem build_rejects_orphans_witness:
  "\<not> orphan_edge [node_a, node_b] edge_loop \<and> \<not> orphan_edge [node_a, node_b] edge_ab \<and>
   orphan_edge [node_a, node_b] edge_az \<and>
   (\<exists>g. build clock_cfg [node_a, node_b] [edge_loop, edge_ab] = Inr g \<and>
        links g = [(0, 0), (0, 1)]) \<and>
   build clock_cfg [node_a, node_b] [edge_ab, edge_az] = Inl InvalidGraphError \<and>
   fst (displayGraph clock_cfg True None
          \<lparr>nodes = [node_a, node_b], edges = [edge_ab, edge_az]\<rparr> ctl_ab)
     = Some InvalidGraphError"
proof -
  have o: "\<not> orphan_edge [node_a, node_b] edge_loop" "\<not> orphan_edge [node_a, node_b] edge_ab"
    "orphan_edge [node_a, node_b] edge_az"
    unfolding orphan_edge_def ids_ab by (simp_all add: edge_loop_def edge_ab_def edge_az_def)
  note T1 = build_rejects_orphans [of clock_cfg "[node_a, node_b]" "[edge_loop, edge_ab]" None ctl_ab]
  note T2 = build_rejects_orphans [of clock_cfg "[node_a, node_b]" "[edge_ab, edge_az]" None ctl_ab]
  from T1 o obtain g where g: "build clock_cfg [node_a, node_b] [edge_loop, edge_ab] = Inr g"
    by auto
  have l: "resolve_edges [node_a, node_b] [edge_loop, edge_ab] = Some [(0, 0), (0, 1)]"
    by (simp add: resolve_edge_def find_node_def node_a_def node_b_def edge_loop_def edge_ab_def)
  from g l have "links g = [(0, 0), (0, 1)]"
    by (auto simp: build_def)
  with g have a: "\<exists>g. build clock_cfg [node_a, node_b] [edge_loop, edge_ab] = Inr g \<and>
        links g = [(0, 0), (0, 1)]" by blast
  from T2 o have b: "build clock_cfg [node_a, node_b] [edge_ab, edge_az] = Inl InvalidGraphError"
    and c: "fst (displayGraph clock_cfg True None
          \<lparr>nodes = [node_a, node_b], edges = [edge_ab, edge_az]\<rparr> ctl_ab)
     = Some InvalidGraphError"
    by auto
  from o a b c show ?thesis by blast
qed

text \<open>
  C9. Whatever the request and the display do, the promise of \<open>loadGraph\<close> resolves:
  a failed request or a throwing display (an orphan edge, a snapshot that the drawing
  calls cannot read) ends in the error toast "Failed to load knowledge graph" and no
  success toast, and only a display that returned ends in the success toast.
\<close>

theorem loadGraph_never_rejects:
  "fst (loadGraph fetched cfg graphContainer draw c) = Resolved \<and>
   toasts (snd (loadGraph fetched cfg graphContainer draw c))
     = toasts c @ [(Info, ''Loading knowledge graph...''),
         (if fst (loadGraph_try fetched cfg graphContainer draw c) = None
          then (Success, ''Knowledge graph loaded successfully'')
          else (Failure, ''Failed to load knowledge graph''))] \<and>
   (fst (loadGraph_try fetched cfg graphContainer draw c) = None \<longleftrightarrow>
      (\<exists>data. fetched = Inr data \<and>
         fst (displayGraph cfg graphContainer draw data
                ((toast Info ''Loading knowledge graph...'' c)\<lparr>graphData := Some data\<rparr>)) = None))"
proof -
  have t: "toasts (snd (displayGraph cfg b w d k)) = toasts k" for b w d k
    by (simp add: displayGraph_def Let_def split: sum.splits)
  show ?thesis
  proof (cases fetched)
    case (Inl e)
    then show ?thesis
      by (simp add: loadGraph_def loadGraph_try_def loadGraph_catch_def toast_def)
  next
    case (Inr data)
    let ?k = "(toast Info ''Loading knowledge graph...'' c)\<lparr>graphData := Some data\<rparr>"
    obtain r k' where d: "displayGraph cfg graphContainer draw data ?k = (r, k')"
      by (cases "displayGraph cfg graphContainer draw data ?k")
    with t [of graphContainer draw data ?k] have "toasts k' = toasts ?k" by simp
    with Inr d show ?thesis
      by (cases r) (simp_all add: loadGraph_def loadGraph_try_def loadGraph_catch_def toast_def)
  qed
qed

definition orphan_data :: KnowledgeGraphData where
  "orphan_data = \<lparr>nodes = [node_a, node_b], edges = [edge_ab, edge_az]\<rparr>"

definition good_data :: KnowledgeGraphData where
  "good_data = \<lparr>nodes = [node_a, node_b], edges = [edge_loop, edge_ab]\<rparr>"

theorem loadGraph_never_rejects_witness:
  "loadGraph (Inl RequestFailed) clock_cfg True None ctl_ab
     = (Resolved, ctl_ab\<lparr>toasts := [(Info, ''Loading knowledge graph...''),
                                     (Failure, ''Failed to load knowledge graph'')]\<rparr>) \<and>
   fst (loadGraph (Inr orphan_data) clock_cfg True None ctl_ab) = Resolved \<and>
   toasts (snd (loadGraph (Inr orphan_data) clock_cfg True None ctl_ab))
     = [(Info, ''Loading knowledge graph...''), (Failure, ''Failed to load knowledge graph'')] \<and>
   toasts (snd (loadGraph (Inr good_data) clock_cfg True (Some TypeError) ctl_ab))
     = [(Info, ''Loading knowledge graph...''), (Failure, ''Failed to load knowledge graph'')] \<and>
   toasts (snd (loadGraph (Inr good_data) clock_cfg True None ctl_ab))
     = [(Info, ''Loading knowledge graph...''),
        (Success, ''Knowledge graph loaded successfully'')]"
proof -
  have a: "loadGraph (Inl RequestFailed) clock_cfg True None ctl_ab
     = (Resolved, ctl_ab\<lparr>toasts := [(Info, ''Loading knowledge graph...''),
                                     (Failure, ''Failed to load knowledge graph'')]\<rparr>)"
    by (simp add: loadGraph_def loadGraph_try_def loadGraph_catch_def toast_def ctl_ab_def)
  have ro: "resolve_edges [node_a, node_b] [edge_ab, edge_az] = None"
    by (simp add: resolve_edge_def find_node_def node_a_def node_b_def edge_ab_def edge_az_def)
  have rg: "resolve_edges [node_a, node_b] [edge_loop, edge_ab] = Some [(0, 0), (0, 1)]"
    by (simp add: resolve_edge_def find_node_def node_a_def node_b_def edge_loop_def edge_ab_def)
  have bo: "build clock_cfg (nodes orphan_data) (edges orphan_data) = Inl InvalidGraphError"
    by (simp add: build_def orphan_data_def ro del: resolve_edges.simps)
  have bg: "\<exists>g. build clock_cfg (nodes good_data) (edges good_data) = Inr g"
    by (simp add: build_def good_data_def rg del: resolve_edges.simps)
  have o: "fst (loadGraph_try (Inr orphan_data) clock_cfg True None ctl_ab)
             = Some InvalidGraphError"
    by (simp add: loadGraph_try_def displayGraph_def Let_def bo)
  from bg obtain g0 where g0: "build clock_cfg (nodes good_data) (edges good_data) = Inr g0" ..
  have w: "fst (loadGraph_try (Inr good_data) clock_cfg True (Some TypeError) ctl_ab)
             = Some TypeError"
    by (simp add: loadGraph_try_def displayGraph_def Let_def g0)
  have g: "fst (loadGraph_try (Inr good_data) clock_cfg True None ctl_ab) = None"
    by (simp add: loadGraph_try_def displayGraph_def Let_def g0)
  have e: "toasts ctl_ab = []" by (simp add: ctl_ab_def)
  from loadGraph_never_rejects [of "Inr orphan_data" clock_cfg True None ctl_ab]
    loadGraph_never_rejects [of "Inr good_data" clock_cfg True "Some TypeError" ctl_ab]
    loadGraph_never_rejects [of "Inr good_data" clock_cfg True None ctl_ab]
    a o w g e
  show ?thesis by simp
qed

subsection \<open>How many ticks a built simulation runs\<close>









subsection \<open>Teardown after a reload\<close>

text \<open>
  The constructor leaves both fields \<^verbatim>\<open>null\<close>. \<^verbatim>\<open>loadGraph\<close> is what the load button
  calls, so it can run any number of times before \<^verbatim>\<open>destroy\<close>: here twice, each time
  with the snapshot of the two free nodes.
\<close>

definition new_Controller :: Controller where
  "new_Controller = \<lparr>graphData = None, simulation = None, replaced = [],
     transform = zoomIdentity, tooltip = False, toasts = []\<rparr>"

definition free_data :: KnowledgeGraphData where
  "free_data = \<lparr>nodes = [node_a, node_c], edges = []\<rparr>"

definition ctl_loaded :: Controller where
  "ctl_loaded = snd (loadGraph (Inr free_data) clock_cfg True None new_Controller)"

definition ctl_reloaded :: Controller where
  "ctl_reloaded = snd (loadGraph (Inr free_data) clock_cfg True None ctl_loaded)"

lemma build_free: "build clock_cfg (nodes free_data) (edges free_data) = Inr sim_free"
  by (simp add: build_def free_data_def sim_free_def clock_cfg_def)

lemma loaded:
  "simulation ctl_loaded = Some sim_free" "replaced ctl_loaded = []"
  by (simp_all add: ctl_loaded_def loadGraph_def loadGraph_try_def displayGraph_def Let_def
        build_free toast_def new_Controller_def)

lemma reloaded:
  "simulation ctl_reloaded = Some sim_free" "replaced ctl_reloaded = [sim_free]"
  by (simp_all add: ctl_reloaded_def loadGraph_def loadGraph_try_def displayGraph_def Let_def
        build_free toast_def loaded)

text \<open>
  C7. \<open>destroy\<close> stops the simulation that the field holds, has no throwing path and
  changes nothing when called again (\<open>destroy_twice\<close>, \<open>destroy_stops_held\<close>), and a frame
  after it changes nothing if no replaced simulation is scheduled
  (\<open>frame_after_destroy\<close>). But it does not cancel every scheduled tick: after two loads
  the simulation that the second \<open>displayGraph\<close> replaced was never stopped, it is still
  Running after \<open>destroy\<close>, and the next display frame changes it.
\<close>

theorem destroy_leaves_replaced_running:
  "simulation ctl_reloaded = Some sim_free \<and> replaced ctl_reloaded = [sim_free] \<and>
   simulation (destroy ctl_reloaded) = Some (stop sim_free) \<and> state (stop sim_free) = Idle \<and>
   destroy (destroy ctl_reloaded) = destroy ctl_reloaded \<and>
   replaced (destroy ctl_reloaded) = [sim_free] \<and> scheduled sim_free \<and>
   replaced (animation_frame push_right (destroy ctl_reloaded)) = [tick push_right sim_free] \<and>
   alpha (tick push_right sim_free) = 1/2 \<and> scheduled (tick push_right sim_free) \<and>
   animation_frame push_right (destroy ctl_reloaded) \<noteq> destroy ctl_reloaded"
proof -
  have s: "scheduled sim_free" "alpha sim_free = 1" "alphaDecay sim_free = 1/2"
    "alphaMin sim_free = 1/4" "state sim_free = Running"
    by (simp_all add: scheduled_def sim_free_def)
  have d: "simulation (destroy ctl_reloaded) = Some (stop sim_free)"
    "replaced (destroy ctl_reloaded) = [sim_free]"
    by (simp_all add: destroy_def reloaded)
  have f: "replaced (animation_frame push_right (destroy ctl_reloaded)) = [tick push_right sim_free]"
    by (simp add: animation_frame_def d frame_def s)
  have t: "alpha (tick push_right sim_free) = 1/2" "state (tick push_right sim_free) = Running"
    by (simp_all add: tick_def Let_def s)
  have n: "animation_frame push_right (destroy ctl_reloaded) \<noteq> destroy ctl_reloaded"
  proof
    assume "animation_frame push_right (destroy ctl_reloaded) = destroy ctl_reloaded"
    then have "replaced (animation_frame push_right (destroy ctl_reloaded))
                 = replaced (destroy ctl_reloaded)"
      by simp
    then have "alpha (tick push_right sim_free) = alpha sim_free"
      unfolding f d by simp
    then show False by (simp add: t s)
  qed
  from reloaded d f t n s stop_idle(1) [of sim_free] destroy_twice [of ctl_reloaded]
  show ?thesis by (simp add: scheduled_def)
qed

end
